theory Spec2Isabelle
  imports Main
begin

section \<open>The Query Log component: filter translation\<close>

text \<open>
  The component under study is the class \<open>QueryLog\<close>. This first part embeds
  \<open>parseFilters\<close>, the pure function turning the table's filter list into the
  parameters of a history request.

  A table filter is \<open>{ id, value }\<close>. The values that the filter widgets of the
  component hand over are strings (the \<open>select\<close> elements and the text inputs
  report \<open>event.target.value\<close>) and the object \<open>{ start, end }\<close> of the date range
  picker. A moment is represented by its \<open>valueOf()\<close>, the milliseconds since the
  Unix epoch.
\<close>

datatype FilterValue = TimeRange int int | Str string

record Filter =
  filter_id :: string
  filter_value :: FilterValue

text \<open>
  A JavaScript number, as far as this code produces one: an integer that a double
  holds exactly, \<open>NaN\<close>, or \<open>Inexact\<close> for an integer beyond \<open>2^53\<close> in magnitude,
  which a double rounds (the model does not say to what).
\<close>

datatype JsNumber = Num int | NaN | Inexact

definition jsInt :: "int \<Rightarrow> JsNumber" where
  "jsInt n = (if \<bar>n\<bar> \<le> 2 ^ 53 then Num n else Inexact)"

fun plusOne :: "JsNumber \<Rightarrow> JsNumber" where
  "plusOne (Num n) = jsInt (n + 1)"
| "plusOne NaN = NaN"
| "plusOne Inexact = Inexact"

text \<open>
  The value of a request parameter: a number, a boolean, or a filter value copied
  as it is.
\<close>

datatype ParamValue = PNum JsNumber | PBool bool | PVal FilterValue

type_synonym QueryParams = "string \<rightharpoonup> ParamValue"

subsection \<open>The runtime's \<open>parseInt\<close>, \<open>toString\<close> and \<open>length\<close>\<close>

text \<open>
  \<open>parseInt(v)\<close> without a radix: \<open>v\<close> is converted to a string, leading white
  space is dropped, a sign is read, a prefix \<open>0x\<close> or \<open>0X\<close> selects radix 16, and
  the longest prefix of digits is the number; no digit gives \<open>NaN\<close>. Strings are
  sequences of code units below 256.
\<close>

definition isWhiteSpace :: "char \<Rightarrow> bool" where
  "isWhiteSpace c =
     (c = CHR 0x09 \<or> c = CHR 0x0A \<or> c = CHR 0x0B \<or> c = CHR 0x0C \<or> c = CHR 0x0D
      \<or> c = CHR 0x20 \<or> c = CHR 0xA0)"

definition digitOf :: "char \<Rightarrow> nat option" where
  "digitOf c =
     (let n = (of_char c :: nat) in
      if 48 \<le> n \<and> n \<le> 57 then Some (n - 48)
      else if 97 \<le> n \<and> n \<le> 102 then Some (n - 87)
      else if 65 \<le> n \<and> n \<le> 70 then Some (n - 55)
      else None)"

definition isRadixDigit :: "nat \<Rightarrow> char \<Rightarrow> bool" where
  "isRadixDigit R c = (case digitOf c of Some d \<Rightarrow> d < R | None \<Rightarrow> False)"

definition digitVal :: "char \<Rightarrow> nat" where
  "digitVal c = (case digitOf c of Some d \<Rightarrow> d | None \<Rightarrow> 0)"

definition signOf :: "string \<Rightarrow> int" where
  "signOf s = (case s of [] \<Rightarrow> 1 | c # r \<Rightarrow> if c = CHR ''-'' then - 1 else 1)"

definition dropSign :: "string \<Rightarrow> string" where
  "dropSign s =
     (case s of [] \<Rightarrow> [] | c # r \<Rightarrow> if c = CHR ''-'' \<or> c = CHR ''+'' then r else s)"

definition hasHexPrefix :: "string \<Rightarrow> bool" where
  "hasHexPrefix s = (take 2 s = ''0x'' \<or> take 2 s = ''0X'')"

definition parseInt :: "string \<Rightarrow> JsNumber" where
  "parseInt inputString =
     (let s = dropWhile isWhiteSpace inputString;
          sign = signOf s;
          s = dropSign s;
          R = (if hasHexPrefix s then 16 else 10);
          s = (if hasHexPrefix s then drop 2 s else s);
          z = takeWhile (isRadixDigit R) s
      in if z = [] then NaN
         else jsInt (sign * int (foldl (\<lambda>a c. a * R + digitVal c) 0 z)))"

fun toString :: "FilterValue \<Rightarrow> string" where
  "toString (Str s) = s"
| "toString (TimeRange a b) = ''[object Object]''"

text \<open>\<open>value.length\<close>: the length of a string, \<open>undefined\<close> (here \<open>None\<close>) on the
  range object.\<close>

fun valueLength :: "FilterValue \<Rightarrow> nat option" where
  "valueLength (Str s) = Some (length s)"
| "valueLength (TimeRange a b) = None"

text \<open>
  \<open>moment(value.start)\<close> and \<open>moment(value.end)\<close>, as milliseconds. A string has
  neither property, and \<open>moment(undefined)\<close> is the current time, which the model
  takes as the parameter \<open>now\<close>.
\<close>

fun momentStart :: "int \<Rightarrow> FilterValue \<Rightarrow> int" where
  "momentStart now (TimeRange a b) = a"
| "momentStart now (Str s) = now"

fun momentEnd :: "int \<Rightarrow> FilterValue \<Rightarrow> int" where
  "momentEnd now (TimeRange a b) = b"
| "momentEnd now (Str s) = now"

subsection \<open>\<open>parseFilters\<close>\<close>

text \<open>
  One iteration of the loop \<open>for (const filter of tableFilters)\<close>: the \<open>switch\<close> on
  \<open>filter.id\<close>, acting on the object \<open>filters\<close> built so far.
  \<open>Math.floor(ms / 1000)\<close> is \<open>ms div 1000\<close> on integers.
\<close>

definition applyFilter :: "int \<Rightarrow> QueryParams \<Rightarrow> Filter \<Rightarrow> QueryParams" where
  "applyFilter now filters f =
     (let v = filter_value f in
      if filter_id f = ''time'' then
        filters(''from'' \<mapsto> PNum (Num (momentStart now v div 1000)),
                ''until'' \<mapsto> PNum (Num (momentEnd now v div 1000)))
      else if filter_id f = ''queryType'' then
        (if v = Str ''all'' then filters
         else filters(''query_type'' \<mapsto> PNum (plusOne (parseInt (toString v)))))
      else if filter_id f = ''domain'' then
        (if valueLength v = Some 0 then filters else filters(''domain'' \<mapsto> PVal v))
      else if filter_id f = ''client'' then
        (if valueLength v = Some 0 then filters else filters(''client'' \<mapsto> PVal v))
      else if filter_id f = ''status'' then
        (if v = Str ''all'' then filters
         else if v = Str ''allowed'' then filters(''blocked'' \<mapsto> PBool False)
         else if v = Str ''blocked'' then filters(''blocked'' \<mapsto> PBool True)
         else filters(''status'' \<mapsto> PVal v))
      else if filter_id f = ''dnssec'' then
        (if v = Str ''all'' then filters else filters(''dnssec'' \<mapsto> PVal v))
      else if filter_id f = ''reply'' then
        (if v = Str ''all'' then filters else filters(''reply'' \<mapsto> PVal v))
      else filters)"

definition parseFilters :: "int \<Rightarrow> Filter list \<Rightarrow> QueryParams" where
  "parseFilters now tableFilters = foldl (applyFilter now) Map.empty tableFilters"

text \<open>
  The \<open>select\<close> of a column lists its items with \<open>value={i}\<close>, the index of the
  item: the filter value of item \<open>i\<close> is the decimal numeral of \<open>i\<close>.
\<close>

definition digitChar :: "nat \<Rightarrow> char" where
  "digitChar d = char_of (48 + d)"

fun decimal :: "nat \<Rightarrow> string" where
  "decimal n = (if n < 10 then [digitChar n] else decimal (n div 10) @ [digitChar (n mod 10)])"

declare decimal.simps [simp del]

section \<open>The Query Log component: state, requests and handlers\<close>

text \<open>The state of the component (\<open>QueryLogState\<close>); \<open>'q\<close> is the type of a query
  of the history (\<open>ApiQuery\<close>), of which the component reads no field here.\<close>

record 'q QueryLogState =
  history :: "'q list"
  cursor :: "string option"
  loading :: bool
  atEnd :: bool
  filtersChanged :: bool
  filters :: "Filter list"

text \<open>The response of the history API, read as \<open>data.history\<close> and \<open>data.cursor\<close>.\<close>

datatype 'q ApiHistoryResponse =
  ApiHistoryResponse (data_history: "'q list") (data_cursor: "string option")

text \<open>The argument of \<open>api.getHistory\<close>: the cursor, and the parameters spread
  after it (\<open>parseFilters\<close> never emits the key \<open>cursor\<close>).\<close>

record Request =
  request_cursor :: "string option"
  request_params :: QueryParams

text \<open>
  A request that has been sent and has not completed yet, with the cancelable
  promise wrapped around it. \<open>handle_id\<close> numbers the requests in the order of
  their issue.
\<close>

record Handle =
  handle_id :: nat
  handle_request :: Request
  hasCanceled :: bool

text \<open>
  The component: its React state, the field \<open>updateHandler\<close> (the handle it
  remembers, by number), the requests still outstanding, and the number of
  requests issued so far.
\<close>

record 'q QueryLog =
  state :: "'q QueryLogState"
  updateHandler :: "nat option"
  outstanding :: "Handle list"
  issued :: nat

text \<open>The constructor: the initial state, with the time filter set to the range
  \<open>dateRanges.Today\<close>, given here by its two instants.\<close>

definition constructor :: "int \<Rightarrow> int \<Rightarrow> 'q QueryLog" where
  "constructor todayStart todayEnd =
     \<lparr> state = \<lparr> history = [], cursor = None, loading = False, atEnd = False,
                 filtersChanged = False,
                 filters = [\<lparr> filter_id = ''time'',
                              filter_value = TimeRange todayStart todayEnd \<rparr>] \<rparr>,
       updateHandler = None, outstanding = [], issued = 0 \<rparr>"

text \<open>
  \<open>fetchQueries({ page, pageSize })\<close>. The two early returns leave the component
  as it is. Otherwise \<open>loading\<close> is set, a request is sent with the cursor and the
  parsed filters of the state, and its handle is stored in \<open>updateHandler\<close>; the
  handle stored there before is overwritten, not canceled.
\<close>

definition fetchQueries :: "int \<Rightarrow> nat \<Rightarrow> nat \<Rightarrow> 'q QueryLog \<Rightarrow> 'q QueryLog" where
  "fetchQueries now page pageSize c =
     (if atEnd (state c) \<or> loading (state c) then c
      else if \<not> filtersChanged (state c)
              \<and> length (history (state c)) \<ge> (page + 2) * pageSize then c
      else
        c\<lparr> state := (state c)\<lparr> loading := True \<rparr>,
           updateHandler := Some (issued c),
           outstanding := outstanding c @
             [\<lparr> handle_id = issued c,
                handle_request =
                  \<lparr> request_cursor = cursor (state c),
                     request_params = parseFilters now (filters (state c)) \<rparr>,
                hasCanceled = False \<rparr>],
           issued := issued c + 1 \<rparr>)"

text \<open>The callback of \<open>.then\<close>: the response is merged into the state.\<close>

definition onResolved :: "'q ApiHistoryResponse \<Rightarrow> 'q QueryLogState \<Rightarrow> 'q QueryLogState" where
  "onResolved data s =
     s\<lparr> loading := False,
        atEnd := (data_cursor data = None),
        cursor := data_cursor data,
        history := history s @ data_history data,
        filtersChanged := False \<rparr>"

text \<open>The handler given to \<open>onFilteredChange\<close>: one \<open>setState\<close>, and nothing else;
  \<open>updateHandler\<close> is not touched.\<close>

definition onFilteredChange :: "Filter list \<Rightarrow> 'q QueryLog \<Rightarrow> 'q QueryLog" where
  "onFilteredChange fs c =
     c\<lparr> state := (state c)\<lparr> filters := fs, filtersChanged := True, cursor := None,
                              atEnd := False, loading := False, history := [] \<rparr> \<rparr>"

text \<open>
  Modelled from the spec: \<open>makeCancelable\<close> and \<open>ignoreCancel\<close> of the module
  \<open>util\<close> are not among the sources. Cancellation is cooperative: \<open>cancel()\<close>
  marks the handle; the request still completes, and the completion of a marked
  handle mutates no state (its result is discarded, and the cancellation is not an
  error).
\<close>

definition cancel :: "nat \<Rightarrow> Handle list \<Rightarrow> Handle list" where
  "cancel i hs = map (\<lambda>h. if handle_id h = i then h\<lparr> hasCanceled := True \<rparr> else h) hs"

text \<open>\<open>componentWillUnmount\<close> cancels the handle in \<open>updateHandler\<close>, if there is one.\<close>

definition componentWillUnmount :: "'q QueryLog \<Rightarrow> 'q QueryLog" where
  "componentWillUnmount c =
     (case updateHandler c of
        None \<Rightarrow> c
      | Some i \<Rightarrow> c\<lparr> outstanding := cancel i (outstanding c) \<rparr>)"

text \<open>
  The completion of request \<open>i\<close>. A response runs the \<open>.then\<close> callback unless the
  handle is marked. A failure of the transport skips the \<open>.then\<close> callback and
  reaches \<open>.catch(ignoreCancel)\<close>, a function of the error alone: the state of the
  component stays as it is. A completed request is outstanding no longer
  (\<open>dropHandle\<close>), and a completion for a request that is not outstanding does
  nothing.
\<close>

fun dropHandle :: "nat \<Rightarrow> Handle list \<Rightarrow> Handle list" where
  "dropHandle i [] = []"
| "dropHandle i (h # hs) = (if handle_id h = i then hs else h # dropHandle i hs)"

definition resolve :: "nat \<Rightarrow> 'q ApiHistoryResponse \<Rightarrow> 'q QueryLog \<Rightarrow> 'q QueryLog" where
  "resolve i data c =
     (case find (\<lambda>h. handle_id h = i) (outstanding c) of
        None \<Rightarrow> c
      | Some h \<Rightarrow>
          if hasCanceled h then c\<lparr> outstanding := dropHandle i (outstanding c) \<rparr>
          else c\<lparr> state := onResolved data (state c),
                  outstanding := dropHandle i (outstanding c) \<rparr>)"

definition reject :: "nat \<Rightarrow> 'q QueryLog \<Rightarrow> 'q QueryLog" where
  "reject i c =
     (case find (\<lambda>h. handle_id h = i) (outstanding c) of
        None \<Rightarrow> c
      | Some h \<Rightarrow> c\<lparr> outstanding := dropHandle i (outstanding c) \<rparr>)"

text \<open>
  What happens to a mounted component: the table asks for data, the filters
  change, a request completes with a response, or a request fails.
\<close>

datatype 'q Event =
  FetchData int nat nat
| FilteredChange "Filter list"
| Resolved nat "'q ApiHistoryResponse"
| Rejected nat

fun step :: "'q QueryLog \<Rightarrow> 'q Event \<Rightarrow> 'q QueryLog" where
  "step c (FetchData now page pageSize) = fetchQueries now page pageSize c"
| "step c (FilteredChange fs) = onFilteredChange fs c"
| "step c (Resolved i data) = resolve i data c"
| "step c (Rejected i) = reject i c"

definition run :: "'q QueryLog \<Rightarrow> 'q Event list \<Rightarrow> 'q QueryLog" where
  "run c evs = foldl step c evs"

text \<open>
  A stretch of events within one filter epoch has no filter change in it, and
  \<open>fetchCalls\<close> is a stretch made of calls of \<open>fetchQueries\<close> only.
\<close>

fun isFilteredChange :: "'q Event \<Rightarrow> bool" where
  "isFilteredChange (FilteredChange fs) = True"
| "isFilteredChange e = False"

definition noFilterChange :: "'q Event list \<Rightarrow> bool" where
  "noFilterChange evs = (filter isFilteredChange evs = [])"

definition fetchCalls :: "(int \<times> nat \<times> nat) list \<Rightarrow> 'q Event list" where
  "fetchCalls calls = map (\<lambda>(now, page, pageSize). FetchData now page pageSize) calls"

text \<open>
  The responses that the \<open>.then\<close> callback merges during a run, in the order of
  their arrival: the number of the request and the page (\<open>data.history\<close>) it
  returned. These are the completions of outstanding handles that are not marked
  as canceled.
\<close>

fun mergedBy :: "'q QueryLog \<Rightarrow> 'q Event \<Rightarrow> (nat \<times> 'q list) list" where
  "mergedBy c (Resolved i data) =
     (case find (\<lambda>h. handle_id h = i) (outstanding c) of
        None \<Rightarrow> []
      | Some h \<Rightarrow> if hasCanceled h then [] else [(i, data_history data)])"
| "mergedBy c e = []"

fun merged :: "'q QueryLog \<Rightarrow> 'q Event list \<Rightarrow> (nat \<times> 'q list) list" where
  "merged c [] = []"
| "merged c (e # evs) = mergedBy c e @ merged (step c e) evs"

text \<open>
  Two notions for the reasoning about one epoch. \<open>oneOutstanding\<close>: no request is
  outstanding, or exactly one is, issued by this component while \<open>loading\<close> is
  set. \<open>nextMerge\<close>: the number of the outstanding request if there is one, and
  of the request to be issued next otherwise.
\<close>

definition oneOutstanding :: "'q QueryLog \<Rightarrow> bool" where
  "oneOutstanding c =
     (case outstanding c of
        [] \<Rightarrow> True
      | h # hs \<Rightarrow> hs = [] \<and> loading (state c) \<and> handle_id h < issued c)"

definition nextMerge :: "'q QueryLog \<Rightarrow> nat" where
  "nextMerge c = (case outstanding c of [] \<Rightarrow> issued c | h # hs \<Rightarrow> handle_id h)"

text \<open>The debounce delays, in milliseconds, that \<open>render\<close> gives to the two
  callbacks of the table.\<close>

record TableProps =
  onFetchData_wait :: nat
  onFilteredChange_wait :: nat

definition render :: TableProps where
  "render = \<lparr> onFetchData_wait = 350, onFilteredChange_wait = 300 \<rparr>"

section \<open>Properties of the filter translation\<close>

lemma digitOf_digitChar: "d < 10 \<Longrightarrow> digitOf (digitChar d) = Some d"
  by (simp add: digitOf_def digitChar_def Let_def)

lemma isRadixDigit_digitChar: "d < 10 \<Longrightarrow> isRadixDigit 10 (digitChar d)"
  by (simp add: isRadixDigit_def digitOf_digitChar)

lemma digitVal_digitChar: "d < 10 \<Longrightarrow> digitVal (digitChar d) = d"
  by (simp add: digitVal_def digitOf_digitChar)

lemma decimal_digits: "c \<in> set (decimal n) \<Longrightarrow> \<exists>d<10. c = digitChar d"
proof (induction n arbitrary: c rule: decimal.induct)
  case (1 n)
  show ?case
  proof (cases "n < 10")
    case True
    with "1.prems" show ?thesis by (auto simp: decimal.simps [of n])
  next
    case False
    with "1.prems" have "c \<in> set (decimal (n div 10)) \<or> c = digitChar (n mod 10)"
      by (auto simp: decimal.simps [of n])
    then show ?thesis
    proof
      assume "c \<in> set (decimal (n div 10))"
      with "1.IH" False show ?thesis by blast
    next
      assume "c = digitChar (n mod 10)"
      moreover have "n mod 10 < 10" by simp
      ultimately show ?thesis by blast
    qed
  qed
qed

lemma decimal_nonempty: "decimal n \<noteq> []"
  by (subst decimal.simps) simp

lemma digitChar_props:
  assumes "d < 10"
  shows "\<not> isWhiteSpace (digitChar d)" "digitChar d \<noteq> CHR ''-''" "digitChar d \<noteq> CHR ''+''"
    "digitChar d \<noteq> CHR ''x''" "digitChar d \<noteq> CHR ''X''" "digitChar d \<noteq> CHR ''a''"
proof -
  have "of_char (digitChar d) = (48 + d :: nat)"
    using assms by (simp add: digitChar_def)
  then have r: "of_char (digitChar d) < (58::nat)" "(48::nat) \<le> of_char (digitChar d)"
    using assms by simp_all
  show "\<not> isWhiteSpace (digitChar d)" using r by (auto simp: isWhiteSpace_def)
  show "digitChar d \<noteq> CHR ''-''" using r by auto
  show "digitChar d \<noteq> CHR ''+''" using r by auto
  show "digitChar d \<noteq> CHR ''x''" using r by auto
  show "digitChar d \<noteq> CHR ''X''" using r by auto
  show "digitChar d \<noteq> CHR ''a''" using r by auto
qed

lemma foldl_decimal: "foldl (\<lambda>a c. a * 10 + digitVal c) 0 (decimal n) = n"
proof (induction n rule: decimal.induct)
  case (1 n)
  show ?case
  proof (cases "n < 10")
    case True
    then show ?thesis by (simp add: decimal.simps [of n] digitVal_digitChar)
  next
    case False
    with "1.IH" show ?thesis
      by (simp add: decimal.simps [of n] digitVal_digitChar)
  qed
qed

lemma decimal_no_x: "CHR ''x'' \<notin> set (decimal n)" "CHR ''X'' \<notin> set (decimal n)"
proof -
  show "CHR ''x'' \<notin> set (decimal n)"
  proof
    assume "CHR ''x'' \<in> set (decimal n)"
    then obtain d where "d < 10" "CHR ''x'' = digitChar d"
      using decimal_digits by blast
    then show False using digitChar_props(4) [of d] by simp
  qed
  show "CHR ''X'' \<notin> set (decimal n)"
  proof
    assume "CHR ''X'' \<in> set (decimal n)"
    then obtain d where "d < 10" "CHR ''X'' = digitChar d"
      using decimal_digits by blast
    then show False using digitChar_props(5) [of d] by simp
  qed
qed

lemma decimal_all_digits: "\<forall>x\<in>set (decimal n). isRadixDigit 10 x"
proof
  fix x assume "x \<in> set (decimal n)"
  then obtain d where "d < 10" "x = digitChar d"
    using decimal_digits by blast
  then show "isRadixDigit 10 x" by (simp add: isRadixDigit_digitChar)
qed

text \<open>\<open>parseInt\<close> reads the numeral of an index back.\<close>

lemma parseInt_decimal: "parseInt (decimal n) = jsInt (int n)"
proof -
  obtain c r where cr: "decimal n = c # r"
    using decimal_nonempty [of n] by (cases "decimal n") auto
  obtain d where d: "d < 10" "c = digitChar d"
    using decimal_digits [of c n] cr by auto
  have ws: "dropWhile isWhiteSpace (decimal n) = decimal n"
    using cr d digitChar_props(1) by simp
  have sg: "signOf (decimal n) = 1" "dropSign (decimal n) = decimal n"
    using cr d digitChar_props(2,3) by (simp_all add: signOf_def dropSign_def)
  have nohex: "\<not> hasHexPrefix (decimal n)"
  proof
    assume h: "hasHexPrefix (decimal n)"
    have "set (take 2 (decimal n)) \<subseteq> set (decimal n)" by (rule set_take_subset)
    moreover from h have "CHR ''x'' \<in> set (take 2 (decimal n)) \<or> CHR ''X'' \<in> set (take 2 (decimal n))"
      unfolding hasHexPrefix_def by (elim disjE) simp_all
    ultimately show False
      using decimal_no_x [of n] by blast
  qed
  have tw: "takeWhile (isRadixDigit 10) (decimal n) = decimal n"
    using decimal_all_digits [of n] by (simp add: takeWhile_eq_all_conv)
  have "parseInt (decimal n) =
      jsInt (1 * int (foldl (\<lambda>a c. a * 10 + digitVal c) 0 (decimal n)))"
    unfolding parseInt_def Let_def ws sg if_not_P [OF nohex] tw
    using decimal_nonempty [of n] by simp
  then show ?thesis by (simp add: foldl_decimal)
qed

lemma decimal_not_all: "decimal n \<noteq> ''all''"
proof
  assume "decimal n = ''all''"
  then have "CHR ''a'' \<in> set (decimal n)" by simp
  then obtain d where "d < 10" "CHR ''a'' = digitChar d"
    using decimal_digits by blast
  then show False using digitChar_props(6) [of d] by simp
qed

lemma parseFilters_entry:
  "parseFilters now (fs @ f # gs) =
     foldl (applyFilter now) (applyFilter now (parseFilters now fs) f) gs"
  by (simp add: parseFilters_def)

lemma parseFilters_last:
  "parseFilters now (fs @ [f]) = applyFilter now (parseFilters now fs) f"
  by (simp add: parseFilters_def)

text \<open>
  Claim C6. A \<open>status\<close> entry, wherever it stands in the filter list, acts on the
  parameters collected before it as follows, and the entries after it are then
  processed as usual: the value \<open>all\<close> adds no key; \<open>allowed\<close> sets \<open>blocked\<close> to
  false; \<open>blocked\<close> sets \<open>blocked\<close> to true; every other value is stored under the
  key \<open>status\<close> as it is. On its own, the entry \<open>42\<close> gives \<open>{status: "42"}\<close>.
\<close>

theorem parseFilters_status:
  "parseFilters now (fs @ \<lparr> filter_id = ''status'', filter_value = v \<rparr> # gs) =
     foldl (applyFilter now)
       (if v = Str ''all'' then parseFilters now fs
        else if v = Str ''allowed'' then (parseFilters now fs)(''blocked'' \<mapsto> PBool False)
        else if v = Str ''blocked'' then (parseFilters now fs)(''blocked'' \<mapsto> PBool True)
        else (parseFilters now fs)(''status'' \<mapsto> PVal v)) gs
   \<and> parseFilters now [\<lparr> filter_id = ''status'', filter_value = Str ''all'' \<rparr>] = Map.empty
   \<and> parseFilters now [\<lparr> filter_id = ''status'', filter_value = Str ''allowed'' \<rparr>]
       = [''blocked'' \<mapsto> PBool False]
   \<and> parseFilters now [\<lparr> filter_id = ''status'', filter_value = Str ''blocked'' \<rparr>]
       = [''blocked'' \<mapsto> PBool True]
   \<and> parseFilters now [\<lparr> filter_id = ''status'', filter_value = Str ''42'' \<rparr>]
       = [''status'' \<mapsto> PVal (Str ''42'')]"
proof -
  have "applyFilter now m \<lparr> filter_id = ''status'', filter_value = v \<rparr> =
      (if v = Str ''all'' then m
        else if v = Str ''allowed'' then m(''blocked'' \<mapsto> PBool False)
        else if v = Str ''blocked'' then m(''blocked'' \<mapsto> PBool True)
        else m(''status'' \<mapsto> PVal v))" for m
    by (simp add: applyFilter_def)
  then show ?thesis
    by (simp add: parseFilters_entry) (simp add: parseFilters_def applyFilter_def)
qed

text \<open>
  Claim C7. A \<open>queryType\<close> entry with the value \<open>all\<close> adds no key; any other
  value \<open>v\<close> sets \<open>query_type\<close> to \<open>parseInt(v) + 1\<close>. For the value of the item
  with index \<open>i\<close> (the decimal numeral of \<open>i\<close>, below \<open>2^53\<close>) this is \<open>i + 1\<close>; the
  value \<open>2\<close> gives \<open>query_type = 3\<close>.
\<close>

theorem parseFilters_queryType:
  "parseFilters now (fs @ \<lparr> filter_id = ''queryType'', filter_value = v \<rparr> # gs) =
     foldl (applyFilter now)
       (if v = Str ''all'' then parseFilters now fs
        else (parseFilters now fs)(''query_type'' \<mapsto> PNum (plusOne (parseInt (toString v))))) gs
   \<and> (\<forall>i. int i < 2 ^ 53 \<longrightarrow>
         parseFilters now (fs @ [\<lparr> filter_id = ''queryType'', filter_value = Str (decimal i) \<rparr>])
           = (parseFilters now fs)(''query_type'' \<mapsto> PNum (Num (int i + 1))))
   \<and> parseFilters now [\<lparr> filter_id = ''queryType'', filter_value = Str ''2'' \<rparr>]
       = [''query_type'' \<mapsto> PNum (Num 3)]"
proof -
  have ap: "applyFilter now m \<lparr> filter_id = ''queryType'', filter_value = v \<rparr> =
      (if v = Str ''all'' then m
       else m(''query_type'' \<mapsto> PNum (plusOne (parseInt (toString v)))))" for m v
    by (simp add: applyFilter_def)
  have a: "parseFilters now (fs @ \<lparr> filter_id = ''queryType'', filter_value = v \<rparr> # gs) =
     foldl (applyFilter now)
       (if v = Str ''all'' then parseFilters now fs
        else (parseFilters now fs)(''query_type'' \<mapsto> PNum (plusOne (parseInt (toString v))))) gs"
    by (simp only: parseFilters_entry ap)
  have b: "parseFilters now (hs @ [\<lparr> filter_id = ''queryType'', filter_value = Str (decimal i) \<rparr>])
           = (parseFilters now hs)(''query_type'' \<mapsto> PNum (Num (int i + 1)))"
    if "int i < 2 ^ 53" for i hs
  proof -
    from that have "plusOne (parseInt (decimal i)) = Num (int i + 1)"
      by (simp add: parseInt_decimal jsInt_def)
    then show ?thesis
      by (simp add: parseFilters_last ap decimal_not_all)
  qed
  have "decimal 2 = ''2''"
    by code_simp
  with b [of 2 "[]"] have c: "parseFilters now ([] @ [\<lparr> filter_id = ''queryType'', filter_value = Str ''2'' \<rparr>])
       = (parseFilters now [])(''query_type'' \<mapsto> PNum (Num 3))"
    by simp
  have "parseFilters now [] = Map.empty" by (simp add: parseFilters_def)
  with c have c': "parseFilters now [\<lparr> filter_id = ''queryType'', filter_value = Str ''2'' \<rparr>]
       = [''query_type'' \<mapsto> PNum (Num 3)]" by simp
  from a b c' show ?thesis by blast
qed

theorem parseFilters_queryType_witness:
  "int 5 < 2 ^ 53 \<and>
   parseFilters 0 ([\<lparr> filter_id = ''domain'', filter_value = Str ''pi.hole'' \<rparr>]
       @ [\<lparr> filter_id = ''queryType'', filter_value = Str (decimal 5) \<rparr>]) ''query_type''
     = Some (PNum (Num 6))"
proof -
  have h: "int 5 < 2 ^ 53" by simp
  from parseFilters_queryType
    [of 0 "[\<lparr> filter_id = ''domain'', filter_value = Str ''pi.hole'' \<rparr>]" "Str ''all''" "[]"]
  have "parseFilters 0 ([\<lparr> filter_id = ''domain'', filter_value = Str ''pi.hole'' \<rparr>]
       @ [\<lparr> filter_id = ''queryType'', filter_value = Str (decimal 5) \<rparr>])
      = (parseFilters 0 [\<lparr> filter_id = ''domain'', filter_value = Str ''pi.hole'' \<rparr>])
          (''query_type'' \<mapsto> PNum (Num (int 5 + 1)))"
    using h by blast
  with h show ?thesis by simp
qed

text \<open>
  Claim C8. An entry whose id is none of \<open>time\<close>, \<open>queryType\<close>, \<open>domain\<close>,
  \<open>client\<close>, \<open>status\<close>, \<open>dnssec\<close>, \<open>reply\<close> is ignored: the parameters are those of
  the list without the entry. (\<open>parseFilters\<close> is a total function on these
  lists: there is no failure to return.)
\<close>

theorem parseFilters_unknown_id:
  assumes "filter_id f \<notin> {''time'', ''queryType'', ''domain'', ''client'', ''status'',
             ''dnssec'', ''reply''}"
  shows "parseFilters now (fs @ f # gs) = parseFilters now (fs @ gs)"
proof -
  from assms have "applyFilter now m f = m" for m
    by (simp add: applyFilter_def)
  then show ?thesis by (simp add: parseFilters_def)
qed

theorem parseFilters_unknown_id_witness:
  "filter_id \<lparr> filter_id = ''upstream'', filter_value = Str ''8.8.8.8'' \<rparr>
      \<notin> {''time'', ''queryType'', ''domain'', ''client'', ''status'', ''dnssec'', ''reply''}
   \<and> parseFilters 0 ([\<lparr> filter_id = ''status'', filter_value = Str ''blocked'' \<rparr>]
        @ \<lparr> filter_id = ''upstream'', filter_value = Str ''8.8.8.8'' \<rparr>
        # [\<lparr> filter_id = ''client'', filter_value = Str ''10.0.0.2'' \<rparr>])
     = parseFilters 0 ([\<lparr> filter_id = ''status'', filter_value = Str ''blocked'' \<rparr>]
        @ [\<lparr> filter_id = ''client'', filter_value = Str ''10.0.0.2'' \<rparr>])"
proof -
  have h: "filter_id \<lparr> filter_id = ''upstream'', filter_value = Str ''8.8.8.8'' \<rparr>
      \<notin> {''time'', ''queryType'', ''domain'', ''client'', ''status'', ''dnssec'', ''reply''}"
    by simp
  show ?thesis using h parseFilters_unknown_id [OF h] by blast
qed

section \<open>Properties of the controller\<close>

subsection \<open>Runs\<close>

lemma run_Nil: "run c [] = c"
  by (simp add: run_def)

lemma run_Cons: "run c (e # evs) = run (step c e) evs"
  by (simp add: run_def)

lemma run_snoc: "run c (evs @ [e]) = step (run c evs) e"
  by (simp add: run_def)

lemma noFilterChange_Cons:
  "noFilterChange (e # evs) = (\<not> isFilteredChange e \<and> noFilterChange evs)"
  by (simp add: noFilterChange_def)

subsection \<open>The guard of \<open>fetchQueries\<close>\<close>

text \<open>
  Claim C4. \<open>fetchQueries\<close> leaves the component as it is exactly when \<open>atEnd\<close> or
  \<open>loading\<close> holds, or the filters are unchanged and the history has at least
  \<open>(page + 2) * pageSize\<close> entries. In every other state it sets \<open>loading\<close>,
  changes nothing else of the state, and sends one request, built from the cursor
  of the state and the parsed filters of the state. With unchanged filters and 50
  entries, a call for page 0 of size 50 sends a request; with 100 entries it does
  not.
\<close>

theorem fetchQueries_guard:
  "(fetchQueries now page pageSize c = c) =
     (atEnd (state c) \<or> loading (state c)
      \<or> (\<not> filtersChanged (state c) \<and> length (history (state c)) \<ge> (page + 2) * pageSize))
   \<and> (fetchQueries now page pageSize c \<noteq> c \<longrightarrow>
        state (fetchQueries now page pageSize c) = (state c)\<lparr> loading := True \<rparr>
        \<and> outstanding (fetchQueries now page pageSize c) = outstanding c @
             [\<lparr> handle_id = issued c,
                handle_request =
                  \<lparr> request_cursor = cursor (state c),
                     request_params = parseFilters now (filters (state c)) \<rparr>,
                hasCanceled = False \<rparr>]
        \<and> updateHandler (fetchQueries now page pageSize c) = Some (issued c)
        \<and> issued (fetchQueries now page pageSize c) = issued c + 1)
   \<and> (\<not> atEnd (state c) \<and> \<not> loading (state c) \<and> \<not> filtersChanged (state c)
        \<and> length (history (state c)) = 50 \<longrightarrow>
        length (outstanding (fetchQueries now 0 50 c)) = length (outstanding c) + 1)
   \<and> (\<not> atEnd (state c) \<and> \<not> loading (state c) \<and> \<not> filtersChanged (state c)
        \<and> length (history (state c)) = 100 \<longrightarrow>
        fetchQueries now 0 50 c = c)"
proof -
  let ?g = "atEnd (state c) \<or> loading (state c)
      \<or> (\<not> filtersChanged (state c) \<and> length (history (state c)) \<ge> (page + 2) * pageSize)"
  have noop: "fetchQueries now' p s c = c"
    if "atEnd (state c) \<or> loading (state c)
      \<or> (\<not> filtersChanged (state c) \<and> length (history (state c)) \<ge> (p + 2) * s)" for now' p s
    using that by (auto simp: fetchQueries_def)
  have issue: "fetchQueries now' p s c =
        c\<lparr> state := (state c)\<lparr> loading := True \<rparr>,
           updateHandler := Some (issued c),
           outstanding := outstanding c @
             [\<lparr> handle_id = issued c,
                handle_request =
                  \<lparr> request_cursor = cursor (state c),
                     request_params = parseFilters now' (filters (state c)) \<rparr>,
                hasCanceled = False \<rparr>],
           issued := issued c + 1 \<rparr>"
    if "\<not> (atEnd (state c) \<or> loading (state c)
      \<or> (\<not> filtersChanged (state c) \<and> length (history (state c)) \<ge> (p + 2) * s))" for now' p s
    using that by (auto simp: fetchQueries_def)
  have neq: "fetchQueries now page pageSize c \<noteq> c" if "\<not> ?g"
  proof
    assume "fetchQueries now page pageSize c = c"
    then have "issued (fetchQueries now page pageSize c) = issued c" by simp
    then show False by (simp add: issue [OF that])
  qed
  have 1: "(fetchQueries now page pageSize c = c) = ?g"
    using noop [of page pageSize now] neq by blast
  have 2: "fetchQueries now page pageSize c \<noteq> c \<longrightarrow>
        state (fetchQueries now page pageSize c) = (state c)\<lparr> loading := True \<rparr>
        \<and> outstanding (fetchQueries now page pageSize c) = outstanding c @
             [\<lparr> handle_id = issued c,
                handle_request =
                  \<lparr> request_cursor = cursor (state c),
                     request_params = parseFilters now (filters (state c)) \<rparr>,
                hasCanceled = False \<rparr>]
        \<and> updateHandler (fetchQueries now page pageSize c) = Some (issued c)
        \<and> issued (fetchQueries now page pageSize c) = issued c + 1"
  proof
    assume "fetchQueries now page pageSize c \<noteq> c"
    with 1 have "\<not> ?g" by simp
    from issue [OF this] show "state (fetchQueries now page pageSize c) = (state c)\<lparr> loading := True \<rparr>
        \<and> outstanding (fetchQueries now page pageSize c) = outstanding c @
             [\<lparr> handle_id = issued c,
                handle_request =
                  \<lparr> request_cursor = cursor (state c),
                     request_params = parseFilters now (filters (state c)) \<rparr>,
                hasCanceled = False \<rparr>]
        \<and> updateHandler (fetchQueries now page pageSize c) = Some (issued c)
        \<and> issued (fetchQueries now page pageSize c) = issued c + 1"
      by simp
  qed
  have 3: "\<not> atEnd (state c) \<and> \<not> loading (state c) \<and> \<not> filtersChanged (state c)
        \<and> length (history (state c)) = 50 \<longrightarrow>
        length (outstanding (fetchQueries now 0 50 c)) = length (outstanding c) + 1"
    by (simp add: fetchQueries_def)
  have 4: "\<not> atEnd (state c) \<and> \<not> loading (state c) \<and> \<not> filtersChanged (state c)
        \<and> length (history (state c)) = 100 \<longrightarrow>
        fetchQueries now 0 50 c = c"
    by (simp add: fetchQueries_def)
  from 1 2 3 4 show ?thesis by blast
qed

theorem fetchQueries_guard_witness:
  "(fetchQueries 0 0 50
       ((constructor 0 1 :: nat QueryLog)\<lparr> state := (state (constructor 0 1))\<lparr> history := replicate 50 0 \<rparr> \<rparr>)
      \<noteq> (constructor 0 1)\<lparr> state := (state (constructor 0 1))\<lparr> history := replicate 50 0 \<rparr> \<rparr>)
   \<and> length (outstanding (fetchQueries 0 0 50
       ((constructor 0 1 :: nat QueryLog)\<lparr> state := (state (constructor 0 1))\<lparr> history := replicate 50 0 \<rparr> \<rparr>))) = 1
   \<and> fetchQueries 0 0 50
       ((constructor 0 1 :: nat QueryLog)\<lparr> state := (state (constructor 0 1))\<lparr> history := replicate 100 0 \<rparr> \<rparr>)
      = (constructor 0 1)\<lparr> state := (state (constructor 0 1))\<lparr> history := replicate 100 0 \<rparr> \<rparr>"
proof -
  let ?c50 = "(constructor 0 1 :: nat QueryLog)\<lparr> state := (state (constructor 0 1))\<lparr> history := replicate 50 0 \<rparr> \<rparr>"
  let ?c100 = "(constructor 0 1 :: nat QueryLog)\<lparr> state := (state (constructor 0 1))\<lparr> history := replicate 100 0 \<rparr> \<rparr>"
  have h50: "\<not> atEnd (state ?c50) \<and> \<not> loading (state ?c50) \<and> \<not> filtersChanged (state ?c50)
        \<and> length (history (state ?c50)) = 50"
    by (simp add: constructor_def)
  have h100: "\<not> atEnd (state ?c100) \<and> \<not> loading (state ?c100) \<and> \<not> filtersChanged (state ?c100)
        \<and> length (history (state ?c100)) = 100"
    by (simp add: constructor_def)
  have o: "outstanding ?c50 = []" by (simp add: constructor_def)
  from fetchQueries_guard [of 0 0 50 ?c50] h50
  have a: "fetchQueries 0 0 50 ?c50 \<noteq> ?c50" by simp
  from fetchQueries_guard [of 0 0 50 ?c50] h50 o
  have b: "length (outstanding (fetchQueries 0 0 50 ?c50)) = 1" by simp
  from fetchQueries_guard [of 0 0 50 ?c100] h100
  have c: "fetchQueries 0 0 50 ?c100 = ?c100" by blast
  from a b c show ?thesis by blast
qed

subsection \<open>A request that fails\<close>

lemma state_reject: "state (reject i c) = state c"
  by (simp add: reject_def split: option.splits)

text \<open>
  Claim C2, evaluated on the code. A fresh component sends request 0, and the
  transport fails. The \<open>.then\<close> callback, the only place where \<open>loading\<close> is
  reset, does not run, and nothing else handles the failure: the request is
  outstanding no longer, \<open>history\<close>, \<open>cursor\<close> and \<open>atEnd\<close> are as before the
  request, and \<open>loading\<close> is still true. The guard of \<open>fetchQueries\<close> reads this
  as a fetch that has not finished: the next call returns at once and sends
  nothing.
\<close>

theorem failed_request_leaves_loading:
  "map handle_id (outstanding (run (constructor 0 1 :: nat QueryLog) [FetchData 0 0 50])) = [0]
   \<and> loading (state (run (constructor 0 1 :: nat QueryLog) [FetchData 0 0 50, Rejected 0]))
   \<and> outstanding (run (constructor 0 1 :: nat QueryLog) [FetchData 0 0 50, Rejected 0]) = []
   \<and> history (state (run (constructor 0 1 :: nat QueryLog) [FetchData 0 0 50, Rejected 0])) = []
   \<and> cursor (state (run (constructor 0 1 :: nat QueryLog) [FetchData 0 0 50, Rejected 0])) = None
   \<and> \<not> atEnd (state (run (constructor 0 1 :: nat QueryLog) [FetchData 0 0 50, Rejected 0]))
   \<and> run (constructor 0 1 :: nat QueryLog) [FetchData 0 0 50, Rejected 0, FetchData 7 0 50]
       = run (constructor 0 1) [FetchData 0 0 50, Rejected 0]"
  by (simp add: run_def constructor_def fetchQueries_def reject_def)

subsection \<open>The end of the data\<close>

lemma fetchQueries_atEnd: "atEnd (state c) \<Longrightarrow> fetchQueries now page pageSize c = c"
  by (simp add: fetchQueries_def)

lemma history_fetchQueries:
  "history (state (fetchQueries now page pageSize c)) = history (state c)"
  by (simp add: fetchQueries_def)

lemma run_fetchCalls_atEnd: "atEnd (state c) \<Longrightarrow> run c (fetchCalls calls) = c"
proof (induction calls)
  case Nil
  show ?case by (simp add: fetchCalls_def run_Nil)
next
  case (Cons a calls)
  obtain now page pageSize where a: "a = (now, page, pageSize)" by (cases a)
  have "run c (fetchCalls (a # calls)) =
      run (fetchQueries now page pageSize c) (fetchCalls calls)"
    by (simp add: fetchCalls_def a run_Cons)
  also have "\<dots> = run c (fetchCalls calls)"
    using Cons.prems by (simp add: fetchQueries_atEnd)
  finally show ?case using Cons by simp
qed

lemma step_idle_atEnd:
  assumes "atEnd (state c)" "outstanding c = []" "\<not> isFilteredChange e"
  shows "step c e = c"
  using assms by (cases e) (simp_all add: fetchQueries_atEnd resolve_def reject_def)

lemma run_idle_atEnd:
  assumes "atEnd (state c)" "outstanding c = []" "noFilterChange evs"
  shows "run c evs = c"
  using assms(3)
proof (induction evs)
  case Nil
  show ?case by (simp add: run_Nil)
next
  case (Cons e evs)
  then have "step c e = c"
    using assms(1,2) by (simp add: noFilterChange_Cons step_idle_atEnd)
  with Cons show ?case by (simp add: run_Cons noFilterChange_Cons)
qed

lemma step_atEnd_cursor:
  assumes "atEnd (state c) \<longrightarrow> cursor (state c) = None"
  shows "atEnd (state (step c e)) \<longrightarrow> cursor (state (step c e)) = None"
proof (cases e)
  case (FetchData now page pageSize)
  with assms show ?thesis by (simp add: fetchQueries_def)
next
  case (FilteredChange fs)
  then show ?thesis by (simp add: onFilteredChange_def)
next
  case (Resolved i data)
  with assms show ?thesis
    by (simp add: resolve_def onResolved_def split: option.splits)
next
  case (Rejected i)
  with assms show ?thesis by (simp add: state_reject)
qed

lemma reachable_atEnd_cursor:
  "atEnd (state (run (constructor a b) evs)) \<longrightarrow> cursor (state (run (constructor a b) evs)) = None"
proof (induction evs rule: rev_induct)
  case Nil
  show ?case by (simp add: run_Nil constructor_def)
next
  case (snoc e evs)
  show ?case unfolding run_snoc using snoc by (rule step_atEnd_cursor)
qed

text \<open>
  When the response to an outstanding request that is not canceled carries the
  cursor \<open>null\<close>, the merge sets \<open>atEnd\<close> and leaves the cursor \<open>null\<close>; calls of
  \<open>fetchQueries\<close> alone then leave the component as it is; and when no other
  request is outstanding, no event but a filter change has any effect. In every
  state that a run from the constructor reaches, \<open>atEnd\<close> implies that the cursor
  is \<open>null\<close>.
\<close>

lemma atEnd_absorbs:
  fixes c :: "'q QueryLog"
  shows "(find (\<lambda>h. handle_id h = i) (outstanding c) = Some h \<and> \<not> hasCanceled h
          \<and> data_cursor d = None \<longrightarrow>
            atEnd (state (resolve i d c)) \<and> cursor (state (resolve i d c)) = None
            \<and> run (resolve i d c) (fetchCalls calls) = resolve i d c
            \<and> (outstanding (resolve i d c) = [] \<and> noFilterChange evs \<longrightarrow>
                 run (resolve i d c) evs = resolve i d c))
     \<and> (atEnd (state (run (constructor a b :: 'q QueryLog) evs')) \<longrightarrow>
          cursor (state (run (constructor a b :: 'q QueryLog) evs')) = None)"
proof -
  have "atEnd (state (resolve i d c)) \<and> cursor (state (resolve i d c)) = None
            \<and> run (resolve i d c) (fetchCalls calls) = resolve i d c
            \<and> (outstanding (resolve i d c) = [] \<and> noFilterChange evs \<longrightarrow>
                 run (resolve i d c) evs = resolve i d c)"
    if h: "find (\<lambda>h. handle_id h = i) (outstanding c) = Some h" "\<not> hasCanceled h"
      "data_cursor d = None"
  proof -
    from h have e: "atEnd (state (resolve i d c))" "cursor (state (resolve i d c)) = None"
      by (simp_all add: resolve_def onResolved_def)
    from e(1) have "run (resolve i d c) (fetchCalls calls) = resolve i d c"
      by (rule run_fetchCalls_atEnd)
    moreover have "outstanding (resolve i d c) = [] \<and> noFilterChange evs \<longrightarrow>
                 run (resolve i d c) evs = resolve i d c"
      using e(1) by (simp add: run_idle_atEnd)
    ultimately show ?thesis using e by simp
  qed
  then show ?thesis using reachable_atEnd_cursor [of a b evs'] by blast
qed

subsection \<open>The history of an epoch\<close>

lemma history_step:
  assumes "\<not> isFilteredChange e"
  shows "history (state (step c e)) = history (state c) @ concat (map snd (mergedBy c e))"
proof (cases e)
  case (FetchData now page pageSize)
  then show ?thesis by (simp add: history_fetchQueries)
next
  case (FilteredChange fs)
  with assms show ?thesis by simp
next
  case (Resolved i data)
  then show ?thesis
    by (simp add: resolve_def onResolved_def split: option.splits)
next
  case (Rejected i)
  then show ?thesis by (simp add: state_reject)
qed

lemma history_run:
  "noFilterChange evs \<Longrightarrow>
     history (state (run c evs)) = history (state c) @ concat (map snd (merged c evs))"
proof (induction evs arbitrary: c)
  case Nil
  show ?case by (simp add: run_Nil)
next
  case (Cons e evs)
  then have e: "\<not> isFilteredChange e" and evs: "noFilterChange evs"
    by (simp_all add: noFilterChange_Cons)
  have "history (state (run c (e # evs))) = history (state (run (step c e) evs))"
    by (simp add: run_Cons)
  also have "\<dots> = history (state (step c e)) @ concat (map snd (merged (step c e) evs))"
    using evs by (rule Cons.IH)
  also have "\<dots> = history (state c) @ concat (map snd (mergedBy c e))
        @ concat (map snd (merged (step c e) evs))"
    using e by (simp add: history_step)
  finally show ?case by simp
qed

lemma step_oneOutstanding:
  assumes "oneOutstanding c" "\<not> isFilteredChange e"
  shows "oneOutstanding (step c e) \<and> nextMerge c \<le> nextMerge (step c e)
     \<and> (\<forall>p\<in>set (mergedBy c e). fst p = nextMerge c \<and> nextMerge c < nextMerge (step c e))"
proof (cases e)
  case (FetchData now page pageSize)
  show ?thesis
  proof (cases "outstanding c")
    case Nil
    then show ?thesis using FetchData
      by (simp add: fetchQueries_def oneOutstanding_def nextMerge_def)
  next
    case (Cons h hs)
    with assms(1) have "loading (state c)" by (simp add: oneOutstanding_def)
    then have "fetchQueries now page pageSize c = c" by (simp add: fetchQueries_def)
    with assms(1) FetchData show ?thesis by simp
  qed
next
  case (FilteredChange fs)
  with assms show ?thesis by simp
next
  case (Resolved i data)
  show ?thesis
  proof (cases "outstanding c")
    case Nil
    then show ?thesis using Resolved assms(1) by (simp add: resolve_def)
  next
    case (Cons h hs)
    with assms(1) have o: "outstanding c = [h]" and lt: "handle_id h < issued c"
      by (simp_all add: oneOutstanding_def)
    show ?thesis
    proof (cases "handle_id h = i")
      case True
      with o lt Resolved show ?thesis
        by (simp add: resolve_def oneOutstanding_def nextMerge_def)
    next
      case False
      with o Resolved have "step c e = c" "mergedBy c e = []"
        by (simp_all add: resolve_def)
      with assms(1) show ?thesis by simp
    qed
  qed
next
  case (Rejected i)
  show ?thesis
  proof (cases "outstanding c")
    case Nil
    then show ?thesis using Rejected assms(1) by (simp add: reject_def)
  next
    case (Cons h hs)
    with assms(1) have o: "outstanding c = [h]" and lt: "handle_id h < issued c"
      by (simp_all add: oneOutstanding_def)
    show ?thesis
    proof (cases "handle_id h = i")
      case True
      with o lt Rejected show ?thesis
        by (simp add: reject_def oneOutstanding_def nextMerge_def)
    next
      case False
      with o Rejected have "step c e = c"
        by (simp add: reject_def)
      with assms(1) Rejected show ?thesis by simp
    qed
  qed
qed

lemma merged_in_issue_order:
  "oneOutstanding c \<Longrightarrow> noFilterChange evs \<Longrightarrow>
     sorted_wrt (<) (map fst (merged c evs)) \<and> (\<forall>i\<in>set (map fst (merged c evs)). nextMerge c \<le> i)"
proof (induction evs arbitrary: c)
  case Nil
  show ?case by simp
next
  case (Cons e evs)
  then have e: "\<not> isFilteredChange e" and evs: "noFilterChange evs"
    by (simp_all add: noFilterChange_Cons)
  from step_oneOutstanding [OF Cons.prems(1) e]
  have s: "oneOutstanding (step c e)" and le: "nextMerge c \<le> nextMerge (step c e)"
    and m: "\<forall>p\<in>set (mergedBy c e). fst p = nextMerge c \<and> nextMerge c < nextMerge (step c e)"
    by simp_all
  from Cons.IH [OF s evs]
  have ih: "sorted_wrt (<) (map fst (merged (step c e) evs))"
    and lb: "\<forall>i\<in>set (map fst (merged (step c e) evs)). nextMerge (step c e) \<le> i"
    by simp_all
  have one: "sorted_wrt (<) (map fst (mergedBy c e))"
    by (cases e) (simp_all split: option.splits)
  have "sorted_wrt (<) (map fst (mergedBy c e) @ map fst (merged (step c e) evs))"
    unfolding sorted_wrt_append using one ih m lb by fastforce
  moreover have "\<forall>i\<in>set (map fst (mergedBy c e) @ map fst (merged (step c e) evs)). nextMerge c \<le> i"
    using m lb le by fastforce
  ultimately show ?case by simp
qed

text \<open>
  In a run without filter change from a state with an empty history, the history
  is the concatenation of the pages of the responses merged during the run, in
  the order of their arrival. When no request was outstanding at the start, these
  are the responses to the requests of the run, merged in the order in which the
  requests were issued, each once.
\<close>

lemma history_of_epoch:
  assumes "history (state c) = []" "noFilterChange evs"
  shows "history (state (run c evs)) = concat (map snd (merged c evs))
     \<and> length (history (state (run c evs))) = sum_list (map (\<lambda>p. length (snd p)) (merged c evs))
     \<and> (outstanding c = [] \<longrightarrow> sorted_wrt (<) (map fst (merged c evs)))"
proof -
  from assms have h: "history (state (run c evs)) = concat (map snd (merged c evs))"
    by (simp add: history_run)
  have "length (concat (map snd (merged c evs))) = sum_list (map (\<lambda>p. length (snd p)) (merged c evs))"
    by (simp add: length_concat comp_def)
  moreover have "outstanding c = [] \<longrightarrow> sorted_wrt (<) (map fst (merged c evs))"
  proof
    assume "outstanding c = []"
    then have "oneOutstanding c" by (simp add: oneOutstanding_def)
    with assms(2) show "sorted_wrt (<) (map fst (merged c evs))"
      using merged_in_issue_order by blast
  qed
  ultimately show ?thesis using h by simp
qed

subsection \<open>A filter change while a request is outstanding\<close>

text \<open>
  Claim C1, evaluated on the code. A fresh component sends request 0 for the
  filters of its constructor; the filters change before the response arrives.
  The handler of the change resets the state and does not cancel the handle: the
  request is still outstanding and not marked, the history is empty. When its
  response arrives, the page and the cursor of the superseded request are merged
  into the state of the new epoch.
\<close>

theorem stale_response_merged:
  "outstanding (run (constructor 0 1 :: nat QueryLog)
       [FetchData 0 0 50,
        FilteredChange [\<lparr> filter_id = ''domain'', filter_value = Str ''pi.hole'' \<rparr>]])
     = [\<lparr> handle_id = 0,
          handle_request = \<lparr> request_cursor = None,
             request_params = parseFilters 0 [\<lparr> filter_id = ''time'', filter_value = TimeRange 0 1 \<rparr>] \<rparr>,
          hasCanceled = False \<rparr>]
   \<and> history (state (run (constructor 0 1 :: nat QueryLog)
       [FetchData 0 0 50,
        FilteredChange [\<lparr> filter_id = ''domain'', filter_value = Str ''pi.hole'' \<rparr>]])) = []
   \<and> history (state (run (constructor 0 1 :: nat QueryLog)
       [FetchData 0 0 50,
        FilteredChange [\<lparr> filter_id = ''domain'', filter_value = Str ''pi.hole'' \<rparr>],
        Resolved 0 (ApiHistoryResponse [7] (Some ''c1''))])) = [7]
   \<and> cursor (state (run (constructor 0 1 :: nat QueryLog)
       [FetchData 0 0 50,
        FilteredChange [\<lparr> filter_id = ''domain'', filter_value = Str ''pi.hole'' \<rparr>],
        Resolved 0 (ApiHistoryResponse [7] (Some ''c1''))])) = Some ''c1''"
  by (simp add: run_def constructor_def fetchQueries_def onFilteredChange_def resolve_def
      onResolved_def)

text \<open>
  Claim C3, evaluated on the code. After the same filter change, \<open>loading\<close> is
  false again, and the next call of \<open>fetchQueries\<close> sends request 1 while request
  0 is still outstanding; neither is marked as canceled. (Without a filter
  change, at most one request is outstanding: lemma \<open>step_oneOutstanding\<close>.)
\<close>

theorem two_requests_outstanding:
  "map (\<lambda>h. (handle_id h, hasCanceled h))
     (outstanding (run (constructor 0 1 :: nat QueryLog)
       [FetchData 0 0 50,
        FilteredChange [\<lparr> filter_id = ''domain'', filter_value = Str ''pi.hole'' \<rparr>],
        FetchData 0 0 50]))
     = [(0, False), (1, False)]"
  by (simp add: run_def constructor_def fetchQueries_def onFilteredChange_def)

text \<open>
  Claim C5, evaluated on the code. The filters change while request 0 is
  outstanding, and request 1 is sent in the new epoch. Its response carries the
  cursor \<open>null\<close>: the merge sets \<open>atEnd\<close>, with the cursor \<open>null\<close>. Then the
  response to request 0 arrives with the cursor \<open>c1\<close> and is merged as well:
  \<open>atEnd\<close> is false again, and the next call of \<open>fetchQueries\<close>, in the same
  epoch, sends request 2 with that cursor. (When no other request is outstanding
  at the merge, nothing is sent any more: lemma \<open>atEnd_absorbs\<close>.)
\<close>

theorem atEnd_unset_by_stale_response:
  "atEnd (state (run (constructor 0 1 :: nat QueryLog)
       [FetchData 0 0 50,
        FilteredChange [\<lparr> filter_id = ''domain'', filter_value = Str ''pi.hole'' \<rparr>],
        FetchData 0 0 50,
        Resolved 1 (ApiHistoryResponse [1] None)]))
   \<and> cursor (state (run (constructor 0 1 :: nat QueryLog)
       [FetchData 0 0 50,
        FilteredChange [\<lparr> filter_id = ''domain'', filter_value = Str ''pi.hole'' \<rparr>],
        FetchData 0 0 50,
        Resolved 1 (ApiHistoryResponse [1] None)])) = None
   \<and> \<not> atEnd (state (run (constructor 0 1 :: nat QueryLog)
       [FetchData 0 0 50,
        FilteredChange [\<lparr> filter_id = ''domain'', filter_value = Str ''pi.hole'' \<rparr>],
        FetchData 0 0 50,
        Resolved 1 (ApiHistoryResponse [1] None),
        Resolved 0 (ApiHistoryResponse [0] (Some ''c1''))]))
   \<and> map (\<lambda>h. (handle_id h, request_cursor (handle_request h)))
       (outstanding (run (constructor 0 1 :: nat QueryLog)
       [FetchData 0 0 50,
        FilteredChange [\<lparr> filter_id = ''domain'', filter_value = Str ''pi.hole'' \<rparr>],
        FetchData 0 0 50,
        Resolved 1 (ApiHistoryResponse [1] None),
        Resolved 0 (ApiHistoryResponse [0] (Some ''c1'')),
        FetchData 0 0 50]))
     = [(2, Some ''c1'')]"
  by (simp add: run_def constructor_def fetchQueries_def onFilteredChange_def resolve_def
      onResolved_def)

text \<open>
  Claim C9, evaluated on the code. The filters change while request 0 is
  outstanding; the history of the new epoch is empty. The epoch sends one
  request, request 1, whose response returns the page \<open>[1]\<close>. Then the response
  to request 0, the page \<open>[0]\<close>, arrives and is appended: the history is
  \<open>[1, 0]\<close>, which is not the page that the one fetch of the epoch returned, and
  not in the order of issue. (In an epoch that starts with no request
  outstanding the history is the concatenation of its pages in the order of
  issue: lemma \<open>history_of_epoch\<close>.)
\<close>

theorem stale_page_in_history:
  "history (state (run (constructor 0 1 :: nat QueryLog)
       [FetchData 0 0 50,
        FilteredChange [\<lparr> filter_id = ''domain'', filter_value = Str ''pi.hole'' \<rparr>]])) = []
   \<and> map handle_id (outstanding (run (constructor 0 1 :: nat QueryLog)
       [FetchData 0 0 50,
        FilteredChange [\<lparr> filter_id = ''domain'', filter_value = Str ''pi.hole'' \<rparr>],
        FetchData 0 0 50])) = [0, 1]
   \<and> history (state (run (constructor 0 1 :: nat QueryLog)
       [FetchData 0 0 50,
        FilteredChange [\<lparr> filter_id = ''domain'', filter_value = Str ''pi.hole'' \<rparr>],
        FetchData 0 0 50,
        Resolved 1 (ApiHistoryResponse [1] (Some ''c2''))])) = [1]
   \<and> history (state (run (constructor 0 1 :: nat QueryLog)
       [FetchData 0 0 50,
        FilteredChange [\<lparr> filter_id = ''domain'', filter_value = Str ''pi.hole'' \<rparr>],
        FetchData 0 0 50,
        Resolved 1 (ApiHistoryResponse [1] (Some ''c2'')),
        Resolved 0 (ApiHistoryResponse [0] (Some ''c1''))])) = [1, 0]"
  by (simp add: run_def constructor_def fetchQueries_def onFilteredChange_def resolve_def
      onResolved_def)

subsection \<open>The debounce delays\<close>

text \<open>
  Claim C10, as amended. Each of the two callbacks is debounced with a constant
  delay of its own, 350 ms for \<open>onFetchData\<close> and 300 ms for
  \<open>onFilteredChange\<close>: the delay of the filter changes is the shorter one.
\<close>

theorem debounce_windows:
  "onFetchData_wait render = 350 \<and> onFilteredChange_wait render = 300
   \<and> onFilteredChange_wait render < onFetchData_wait render"
  by (simp add: render_def)

text \<open>The delay of the filter changes is not longer than that of the page
  requests.\<close>

theorem debounce_windows_counterexample:
  "\<not> (onFetchData_wait render < onFilteredChange_wait render)"
  by (simp add: render_def)

end
